theory Spec2Isabelle
  imports
    Complex_Main
    "HOL-Library.Char_ord"
    "HOL-Library.List_Lexorder"
    "HOL-Library.Product_Lexorder"
    "HOL-Library.Multiset"
begin

section \<open>Strings, characters and exceptions\<close>

text \<open>
  A Python \<open>str\<close> is a sequence of code points. The model uses \<^typ>\<open>string\<close>, whose
  characters are the code points below 256 (ASCII and the Latin-1 supplement); file names
  with other code points are outside the model. The three character-level library
  operations that \<open>app.py\<close> relies on are written out for this range:
  \<^item> the regular-expression class \<open>\d\<close> (Unicode category Nd): the ten ASCII digits;
  \<^item> \<open>str.isdigit\<close>: the ASCII digits and the superscript digits U+00B2, U+00B3, U+00B9;
  \<^item> \<open>str.lower\<close>: \<open>A\<close>..\<open>Z\<close> and U+00C0..U+00DE except U+00D7 move up by 32.

  Exceptions are values. Only subclasses of \<open>Exception\<close> are modelled, which is what the
  two \<open>except Exception\<close> handlers of \<open>convert_images_to_pdf\<close> catch.
\<close>

datatype py_error =
    AttributeError
  | ValueError string
  | TypeError
  | ZeroDivisionError
  | LibraryError string

definition re_digit :: "char \<Rightarrow> bool" where
  "re_digit c = (CHR ''0'' \<le> c \<and> c \<le> CHR ''9'')"

definition isdigit_char :: "char \<Rightarrow> bool" where
  "isdigit_char c = (re_digit c \<or> c = CHR 0xB2 \<or> c = CHR 0xB3 \<or> c = CHR 0xB9)"

definition isdigit :: "string \<Rightarrow> bool" where
  "isdigit text = (text \<noteq> [] \<and> list_all isdigit_char text)"

definition lower_char :: "char \<Rightarrow> char" where
  "lower_char c =
     (if (CHR ''A'' \<le> c \<and> c \<le> CHR ''Z'') \<or> (CHR 0xC0 \<le> c \<and> c \<le> CHR 0xDE \<and> c \<noteq> CHR 0xD7)
      then char_of (of_char c + (32::nat)) else c)"

definition lower :: "string \<Rightarrow> string" where
  "lower s = map lower_char s"

definition endswith :: "string \<Rightarrow> string \<Rightarrow> bool" where
  "endswith s suffix = (length suffix \<le> length s \<and> drop (length s - length suffix) s = suffix)"

text \<open>
  \<open>int(text)\<close> is only ever applied to a \<open>text\<close> for which \<open>isdigit\<close> holds. On such a
  text it returns the decimal value when every character is an ASCII digit and raises
  \<open>ValueError\<close> otherwise (a superscript digit is a digit, but not a decimal one). The
  limit that recent interpreters put on the length of the digit string (4300 digits) is
  beyond the length of a file name and is not modelled.
\<close>

definition digit_value :: "char \<Rightarrow> int" where
  "digit_value c = int (of_char c) - 48"

definition decimal :: "string \<Rightarrow> int" where
  "decimal text = foldl (\<lambda>acc c. 10 * acc + digit_value c) 0 text"

definition py_int :: "string \<Rightarrow> py_error + int" where
  "py_int text = (if text \<noteq> [] \<and> list_all re_digit text then Inr (decimal text) else Inl (ValueError text))"

section \<open>The natural sort key\<close>

text \<open>
  \<open>re.split('(\d+)', s)\<close> cuts \<open>s\<close> at every maximal run of \<open>\d\<close> characters and keeps the
  runs, because the pattern is a capturing group: the result is the text before the first
  run, the first run, the text between the first and second run, and so on, ending with
  the text after the last run. Texts at the two ends may be empty.
\<close>

function re_split :: "string \<Rightarrow> string list" where
  "re_split s =
     (let text = takeWhile (\<lambda>c. \<not> re_digit c) s;
          rest = dropWhile (\<lambda>c. \<not> re_digit c) s
      in if rest = [] then [text]
         else text # takeWhile re_digit rest # re_split (dropWhile re_digit rest))"
  by pat_completeness auto
termination
proof (relation "measure length")
  show "wf (measure length)" by simp
next
  fix s rest :: string
  assume r: "rest = dropWhile (\<lambda>c. \<not> re_digit c) s" and ne: "rest \<noteq> []"
  from ne obtain c cs where rc: "rest = c # cs" by (cases rest) auto
  from ne have "\<not> \<not> re_digit (hd rest)"
    unfolding r by (rule hd_dropWhile)
  with rc have "re_digit c" by simp
  with rc have "length (dropWhile re_digit rest) \<le> length cs"
    by (simp add: length_dropWhile_le)
  moreover have "length rest \<le> length s"
    unfolding r by (rule length_dropWhile_le)
  ultimately show "(dropWhile re_digit rest, s) \<in> measure length"
    using rc by simp
qed

declare re_split.simps [simp del]

datatype key_elem = KInt int | KStr string

definition key_of_text :: "string \<Rightarrow> py_error + key_elem" where
  "key_of_text text =
     (if isdigit text then (case py_int text of Inl e \<Rightarrow> Inl e | Inr n \<Rightarrow> Inr (KInt n))
      else Inr (KStr (lower text)))"

text \<open>A list comprehension evaluates left to right and stops at the first exception.\<close>

fun comprehension :: "('a \<Rightarrow> py_error + 'b) \<Rightarrow> 'a list \<Rightarrow> py_error + 'b list" where
  "comprehension f [] = Inr []"
| "comprehension f (x # xs) =
     (case f x of
        Inl e \<Rightarrow> Inl e
      | Inr y \<Rightarrow> (case comprehension f xs of Inl e \<Rightarrow> Inl e | Inr ys \<Rightarrow> Inr (y # ys)))"

definition natural_sort_key :: "string \<Rightarrow> py_error + key_elem list" where
  "natural_sort_key s = comprehension key_of_text (re_split s)"

section \<open>Comparing keys and sorting\<close>

text \<open>
  Python orders two lists by the first position at which they differ under \<open>==\<close>; an
  \<open>int\<close> and a \<open>str\<close> are never equal, and ordering them with \<open><\<close> raises \<open>TypeError\<close>.
  When no position differs, the shorter list is the smaller one. Strings are ordered
  lexicographically by code point.
\<close>

fun elem_lt :: "key_elem \<Rightarrow> key_elem \<Rightarrow> py_error + bool" where
  "elem_lt (KInt a) (KInt b) = Inr (a < b)"
| "elem_lt (KStr a) (KStr b) = Inr (a < b)"
| "elem_lt (KInt a) (KStr b) = Inl TypeError"
| "elem_lt (KStr a) (KInt b) = Inl TypeError"

fun key_lt :: "key_elem list \<Rightarrow> key_elem list \<Rightarrow> py_error + bool" where
  "key_lt [] [] = Inr False"
| "key_lt [] (y # ys) = Inr True"
| "key_lt (x # xs) [] = Inr False"
| "key_lt (x # xs) (y # ys) = (if x = y then key_lt xs ys else elem_lt x y)"

text \<open>
  \<open>sorted(xs, key=f)\<close> first computes \<open>f\<close> for every element, in order, and then sorts
  the elements by their keys with \<open><\<close> alone, keeping elements with equal keys in their
  original order. The library's merge sort is modelled by a stable insertion sort: an
  element moves right past exactly the elements whose key is smaller than its own. The
  two make different comparisons; the result is the same whenever no comparison raises,
  which is the case for the keys of file names (\<open>keys_total\<close> below).
\<close>

fun insort_lt :: "('a \<times> key_elem list) \<Rightarrow> ('a \<times> key_elem list) list \<Rightarrow> py_error + ('a \<times> key_elem list) list" where
  "insort_lt x [] = Inr [x]"
| "insort_lt x (y # ys) =
     (case key_lt (snd y) (snd x) of
        Inl e \<Rightarrow> Inl e
      | Inr True \<Rightarrow> (case insort_lt x ys of Inl e \<Rightarrow> Inl e | Inr r \<Rightarrow> Inr (y # r))
      | Inr False \<Rightarrow> Inr (x # y # ys))"

fun sort_lt :: "('a \<times> key_elem list) list \<Rightarrow> py_error + ('a \<times> key_elem list) list" where
  "sort_lt [] = Inr []"
| "sort_lt (x # xs) = (case sort_lt xs of Inl e \<Rightarrow> Inl e | Inr r \<Rightarrow> insort_lt x r)"

definition sorted_by :: "('a \<Rightarrow> py_error + key_elem list) \<Rightarrow> 'a list \<Rightarrow> py_error + 'a list" where
  "sorted_by key xs =
     (case comprehension (\<lambda>x. case key x of Inl e \<Rightarrow> Inl e | Inr k \<Rightarrow> Inr (x, k)) xs of
        Inl e \<Rightarrow> Inl e
      | Inr decorated \<Rightarrow> (case sort_lt decorated of Inl e \<Rightarrow> Inl e | Inr r \<Rightarrow> Inr (map fst r)))"

section \<open>The Sequencer: listing, filtering and ordering\<close>

text \<open>
  A directory entry has a name and is a file or a subdirectory. \<open>os.listdir\<close> returns
  the names only, in the enumeration order of the file system, or raises.
\<close>

record dirent =
  entry_name :: string
  is_dir :: bool

definition image_extensions :: "string list" where
  "image_extensions = [''.png'', ''.jpg'', ''.jpeg'', ''.gif'', ''.bmp'', ''.tiff'']"

definition is_image_name :: "string \<Rightarrow> bool" where
  "is_image_name f = list_ex (endswith (lower f)) image_extensions"

definition retained :: "dirent list \<Rightarrow> string list" where
  "retained entries = filter is_image_name (map entry_name entries)"

definition list_images :: "dirent list \<Rightarrow> py_error + string list" where
  "list_images entries = sorted_by natural_sort_key (retained entries)"

section \<open>The Page Compositor\<close>

text \<open>
  Page sizes are the constants of \<open>reportlab.lib.pagesizes\<close>, in points:
  \<open>letter = (8.5*inch, 11*inch)\<close> and \<open>A4 = (210*mm, 297*mm)\<close> with \<open>inch = 72\<close>,
  \<open>cm = inch/2.54\<close> and \<open>mm = cm*0.1\<close>. Python computes the geometry in binary floating
  point; the model computes it in exact real arithmetic, so rounding is not modelled.
\<close>

definition inch :: real where
  "inch = 72"

definition mm :: real where
  "mm = inch / 2.54 * 0.1"

definition letter :: "real \<times> real" where
  "letter = (8.5 * inch, 11 * inch)"

definition A4 :: "real \<times> real" where
  "A4 = (210 * mm, 297 * mm)"

text \<open>
  The parameter \<open>page_size\<close> is documented as a string, and the window passes one. Its
  default value, however, is the tuple \<open>letter\<close>, which has no method \<open>lower\<close>.
\<close>

datatype page_size_arg = SizeName string | SizeTuple real real

fun select_pagesize :: "page_size_arg \<Rightarrow> py_error + real \<times> real" where
  "select_pagesize (SizeName s) = Inr (if lower s = ''a4'' then A4 else letter)"
| "select_pagesize (SizeTuple w h) = Inl AttributeError"

record placement =
  draw_x :: real
  draw_y :: real
  new_width :: real
  new_height :: real

text \<open>Lines 64 to 77: dividing by a pixel dimension of zero raises \<open>ZeroDivisionError\<close>.\<close>

definition fit :: "real \<times> real \<Rightarrow> nat \<times> nat \<Rightarrow> py_error + placement" where
  "fit pagesize imgsize =
     (let (width, height) = pagesize;
          (img_width, img_height) = imgsize;
          margin = 20;
          max_img_width = width - 2 * margin;
          max_img_height = height - 2 * margin
      in if img_width = 0 \<or> img_height = 0 then Inl ZeroDivisionError
         else
           let scale = min (max_img_width / real img_width) (max_img_height / real img_height);
               scale = (if scale > 1 then 1 else scale);
               new_width = real img_width * scale;
               new_height = real img_height * scale
           in Inr \<lparr>draw_x = (width - new_width) / 2, draw_y = (height - new_height) / 2,
                   new_width = new_width, new_height = new_height\<rparr>)"

text \<open>
  The environment of one run: what the operating system and the imaging libraries answer.
  \<open>image_size folder filename\<close> is \<open>ImageReader(path).getSize()\<close> for the joined path,
  \<open>draw_image\<close> is the exception raised by \<open>drawImage\<close>, if any, and \<open>canvas_save\<close> the
  one raised by \<open>save\<close>, which is where the output file is written.
\<close>

record env =
  path_dirname :: "string \<Rightarrow> string"
  path_exists :: "string \<Rightarrow> bool"
  os_makedirs :: "string \<Rightarrow> py_error option"
  os_listdir :: "string \<Rightarrow> py_error + dirent list"
  image_size :: "string \<Rightarrow> string \<Rightarrow> py_error + nat \<times> nat"
  draw_image :: "string \<Rightarrow> string \<Rightarrow> py_error option"
  canvas_save :: "string \<Rightarrow> py_error option"

record args =
  image_folder :: string
  output_pdf :: string
  page_size :: page_size_arg
  progress_callback :: bool

text \<open>
  The five messages passed to the progress callback, by their format strings:
  \<open>NoImagesFound\<close> (line 52), \<open>Processing (i + 1) total filename\<close> (line 58),
  \<open>FileFailed filename e\<close> (line 83), \<open>Saved output_pdf\<close> (line 87) and
  \<open>ConvertFailed e\<close> (line 91). The callback is taken not to raise; when the caller
  passes none, \<open>progress_callback\<close> is \<open>False\<close> and nothing is emitted.
\<close>

datatype event =
    NoImagesFound
  | Processing nat nat string
  | FileFailed string py_error
  | Saved string
  | ConvertFailed py_error

record page =
  source :: string
  place :: placement

record run_state =
  events :: "event list"
  pages :: "page list"
  saved :: bool

definition initial :: run_state where
  "initial = \<lparr>events = [], pages = [], saved = False\<rparr>"

definition emit :: "args \<Rightarrow> event \<Rightarrow> run_state \<Rightarrow> run_state" where
  "emit a ev st = (if progress_callback a then st\<lparr>events := events st @ [ev]\<rparr> else st)"

text \<open>The body of the inner \<open>try\<close> (lines 61 to 79): the page drawn, or the exception.\<close>

definition process_image :: "env \<Rightarrow> string \<Rightarrow> real \<times> real \<Rightarrow> string \<Rightarrow> py_error + page" where
  "process_image ev folder pagesize filename =
     (case image_size ev folder filename of
        Inl e \<Rightarrow> Inl e
      | Inr imgsize \<Rightarrow>
          (case fit pagesize imgsize of
             Inl e \<Rightarrow> Inl e
           | Inr pl \<Rightarrow>
               (case draw_image ev folder filename of
                  Some e \<Rightarrow> Inl e
                | None \<Rightarrow> Inr \<lparr>source = filename, place = pl\<rparr>)))"

text \<open>The \<open>for\<close> loop (lines 55 to 83), from index \<open>i\<close> on.\<close>

fun process_files :: "env \<Rightarrow> args \<Rightarrow> real \<times> real \<Rightarrow> nat \<Rightarrow> nat \<Rightarrow> string list \<Rightarrow> run_state \<Rightarrow> run_state" where
  "process_files ev a pagesize total_n i [] st = st"
| "process_files ev a pagesize total_n i (filename # rest) st =
     (let st1 = emit a (Processing (i + 1) total_n filename) st;
          st2 = (case process_image ev (image_folder a) pagesize filename of
                   Inr pg \<Rightarrow> st1\<lparr>pages := pages st1 @ [pg]\<rparr>
                 | Inl e \<Rightarrow> emit a (FileFailed filename e) st1)
      in process_files ev a pagesize total_n (i + 1) rest st2)"

text \<open>Lines 26 to 28: the exception raised while the output directory is ensured, if any.\<close>

definition ensure_output_dir :: "env \<Rightarrow> args \<Rightarrow> py_error option" where
  "ensure_output_dir ev a =
     (let output_dir = path_dirname ev (output_pdf a) in
      if output_dir \<noteq> [] \<and> \<not> path_exists ev output_dir then os_makedirs ev output_dir else None)"

text \<open>
  The body of the outer \<open>try\<close> (lines 25 to 87): the exception that leaves it, if any,
  and the state reached. Creating the canvas (line 37) opens no file and is taken not to
  raise; the output file is written by \<open>save\<close>.
\<close>

definition convert_body :: "env \<Rightarrow> args \<Rightarrow> py_error option \<times> run_state" where
  "convert_body ev a =
     (case ensure_output_dir ev a of
        Some e \<Rightarrow> (Some e, initial)
      | None \<Rightarrow>
          (case select_pagesize (page_size a) of
             Inl e \<Rightarrow> (Some e, initial)
           | Inr pagesize \<Rightarrow>
               (case os_listdir ev (image_folder a) of
                  Inl e \<Rightarrow> (Some e, initial)
                | Inr entries \<Rightarrow>
                    (case list_images entries of
                       Inl e \<Rightarrow> (Some e, initial)
                     | Inr image_files \<Rightarrow>
                         let total_n = length image_files in
                         if total_n = 0 then (None, emit a NoImagesFound initial)
                         else
                           let st = process_files ev a pagesize total_n 0 image_files initial in
                           (case canvas_save ev (output_pdf a) of
                              Some e \<Rightarrow> (Some e, st)
                            | None \<Rightarrow> (None, emit a (Saved (output_pdf a)) (st\<lparr>saved := True\<rparr>)))))))"

text \<open>
  What the caller of a Python function observes: a returned value, here always \<open>None\<close>,
  or a raised exception. The handler of line 89 turns every exception of the body into
  a message.
\<close>

datatype outcome = Returned_None | Raised py_error

definition convert_images_to_pdf :: "env \<Rightarrow> args \<Rightarrow> outcome \<times> run_state" where
  "convert_images_to_pdf ev a =
     (case convert_body ev a of
        (None, st) \<Rightarrow> (Returned_None, st)
      | (Some e, st) \<Rightarrow> (Returned_None, emit a (ConvertFailed e) st))"

section \<open>Notions used to state the properties\<close>

text \<open>
  The shape of a key: strings and integers alternate; \<open>alternates True\<close> starts with a
  string. The shape of a split: digit-free texts at the even positions, non-empty digit
  runs at the odd ones, ending with a text.
\<close>

fun alternates :: "bool \<Rightarrow> key_elem list \<Rightarrow> bool" where
  "alternates b [] = True"
| "alternates b (KStr s # ks) = (b \<and> alternates False ks)"
| "alternates b (KInt n # ks) = (\<not> b \<and> alternates True ks)"

fun split_shape :: "string list \<Rightarrow> bool" where
  "split_shape [] = False"
| "split_shape [t] = list_all (\<lambda>c. \<not> re_digit c) t"
| "split_shape (t # d # rest) =
     (list_all (\<lambda>c. \<not> re_digit c) t \<and> d \<noteq> [] \<and> list_all re_digit d \<and> split_shape rest)"


text \<open>A plain name has no character that is a digit for \<open>isdigit\<close> but not for \<open>\d\<close>.\<close>

definition plain :: "string \<Rightarrow> bool" where
  "plain f = list_all (\<lambda>c. isdigit_char c = re_digit c) f"

definition has_key :: "string \<Rightarrow> bool" where
  "has_key f = (case natural_sort_key f of Inl e \<Rightarrow> False | Inr k \<Rightarrow> True)"


text \<open>
  The messages and pages that the loop over the ordered files is expected to produce:
  one \<open>Processing\<close> message per file, followed by a \<open>FileFailed\<close> message when the file
  fails, and one page per file that does not fail.
\<close>

fun trace :: "env \<Rightarrow> args \<Rightarrow> real \<times> real \<Rightarrow> nat \<Rightarrow> nat \<Rightarrow> string list \<Rightarrow> event list" where
  "trace ev a pagesize total_n i [] = []"
| "trace ev a pagesize total_n i (f # fs) =
     Processing (i + 1) total_n f #
     (case process_image ev (image_folder a) pagesize f of Inl e \<Rightarrow> [FileFailed f e] | Inr pg \<Rightarrow> []) @
     trace ev a pagesize total_n (i + 1) fs"

fun drawn :: "env \<Rightarrow> args \<Rightarrow> real \<times> real \<Rightarrow> string list \<Rightarrow> page list" where
  "drawn ev a pagesize [] = []"
| "drawn ev a pagesize (f # fs) =
     (case process_image ev (image_folder a) pagesize f of Inl e \<Rightarrow> [] | Inr pg \<Rightarrow> [pg]) @
     drawn ev a pagesize fs"

definition drawable :: "env \<Rightarrow> args \<Rightarrow> real \<times> real \<Rightarrow> string \<Rightarrow> bool" where
  "drawable ev a pagesize f =
     (case process_image ev (image_folder a) pagesize f of Inl e \<Rightarrow> False | Inr pg \<Rightarrow> True)"

definition is_failure_of :: "string \<Rightarrow> event \<Rightarrow> bool" where
  "is_failure_of f ev = (case ev of FileFailed g e \<Rightarrow> g = f | _ \<Rightarrow> False)"

definition is_processing :: "event \<Rightarrow> bool" where
  "is_processing ev = (case ev of Processing i n f \<Rightarrow> True | _ \<Rightarrow> False)"

definition is_saved :: "event \<Rightarrow> bool" where
  "is_saved ev = (case ev of Saved p \<Rightarrow> True | _ \<Rightarrow> False)"

definition is_convert_failed :: "event \<Rightarrow> bool" where
  "is_convert_failed ev = (case ev of ConvertFailed e \<Rightarrow> True | _ \<Rightarrow> False)"

text \<open>
  For the proofs: a name paired with its key, as \<open>sorted_by\<close> does; lists of such pairs;
  and an embedding of well-shaped keys into a linear order.
\<close>

definition decorate :: "string \<Rightarrow> py_error + string \<times> key_elem list" where
  "decorate f = (case natural_sort_key f of Inl e \<Rightarrow> Inl e | Inr k \<Rightarrow> Inr (f, k))"

definition keyed :: "(string \<times> key_elem list) list \<Rightarrow> bool" where
  "keyed ps = list_all (\<lambda>p. natural_sort_key (fst p) = Inr (snd p)) ps"

definition rank :: "key_elem \<Rightarrow> int \<times> string" where
  "rank e = (case e of KInt n \<Rightarrow> (n, []) | KStr s \<Rightarrow> (0, s))"

abbreviation rank_of :: "'a \<times> key_elem list \<Rightarrow> (int \<times> string) list" where
  "rank_of p \<equiv> map rank (snd p)"

section \<open>Example runs\<close>

text \<open>
  A folder \<open>in\<close> with three images and a text file. The second image cannot be decoded;
  the other two are 100 by 100 and 2000 by 1000 pixels. The output directory exists.
\<close>

definition example_entries :: "dirent list" where
  "example_entries =
     [\<lparr>entry_name = ''img2.png'', is_dir = False\<rparr>,
      \<lparr>entry_name = ''notes.txt'', is_dir = False\<rparr>,
      \<lparr>entry_name = ''img10.png'', is_dir = False\<rparr>,
      \<lparr>entry_name = ''img1.png'', is_dir = False\<rparr>]"

definition example_env :: env where
  "example_env =
     \<lparr>path_dirname = (\<lambda>p. ''out''),
      path_exists = (\<lambda>p. True),
      os_makedirs = (\<lambda>p. None),
      os_listdir = (\<lambda>d. if d = ''in'' then Inr example_entries else Inl (LibraryError ''No such file or directory'')),
      image_size = (\<lambda>d f. if f = ''img1.png'' then Inr (100, 100)
                           else if f = ''img10.png'' then Inr (2000, 1000)
                           else Inl (LibraryError ''cannot identify image file'')),
      draw_image = (\<lambda>d f. None),
      canvas_save = (\<lambda>p. None)\<rparr>"

text \<open>Three names with the same key, and one with a superscript two between digits.\<close>

definition tie_entries :: "dirent list" where
  "tie_entries =
     [\<lparr>entry_name = ''b.png'', is_dir = False\<rparr>,
      \<lparr>entry_name = ''A1.png'', is_dir = False\<rparr>,
      \<lparr>entry_name = ''a01.png'', is_dir = False\<rparr>,
      \<lparr>entry_name = ''a1.PNG'', is_dir = False\<rparr>]"

definition superscript_name :: string where
  "superscript_name = [CHR ''1'', CHR 0xB2, CHR ''2'', CHR ''.'', CHR ''p'', CHR ''n'', CHR ''g'']"

text \<open>
  The listing of the specification's filter example, a listing with a subdirectory whose
  name looks like an image, a folder without images, and an output file that cannot be
  written.
\<close>

definition filter_entries :: "dirent list" where
  "filter_entries =
     [\<lparr>entry_name = ''a.png'', is_dir = False\<rparr>,
      \<lparr>entry_name = ''b.txt'', is_dir = False\<rparr>,
      \<lparr>entry_name = ''c.JPG'', is_dir = False\<rparr>]"

definition subdir_entries :: "dirent list" where
  "subdir_entries = [\<lparr>entry_name = ''scans.png'', is_dir = True\<rparr>]"

definition empty_env :: env where
  "empty_env = example_env\<lparr>os_listdir := (\<lambda>d. Inr [\<lparr>entry_name = ''notes.txt'', is_dir = False\<rparr>])\<rparr>"

definition readonly_env :: env where
  "readonly_env = example_env\<lparr>canvas_save := (\<lambda>p. Some (LibraryError ''Permission denied''))\<rparr>"

definition example_args :: args where
  "example_args =
     \<lparr>image_folder = ''in'', output_pdf = ''out/album.pdf'',
      page_size = SizeName ''letter'', progress_callback = True\<rparr>"

definition missing_args :: args where
  "missing_args = example_args\<lparr>image_folder := ''nowhere''\<rparr>"

section \<open>Characters and case folding\<close>






section \<open>Keys, comparison and sorting\<close>

lemma takeWhile_not_digit: "list_all (\<lambda>c. \<not> re_digit c) (takeWhile (\<lambda>c. \<not> re_digit c) s)"
  by (induction s) auto

lemma takeWhile_digit: "list_all re_digit (takeWhile re_digit s)"
  by (induction s) auto

lemma re_split_plain:
  "dropWhile (\<lambda>c. \<not> re_digit c) s = [] \<Longrightarrow> re_split s = [takeWhile (\<lambda>c. \<not> re_digit c) s]"
  by (subst re_split.simps) (simp add: Let_def)

lemma re_split_run:
  "dropWhile (\<lambda>c. \<not> re_digit c) s \<noteq> [] \<Longrightarrow>
   re_split s =
     takeWhile (\<lambda>c. \<not> re_digit c) s #
     takeWhile re_digit (dropWhile (\<lambda>c. \<not> re_digit c) s) #
     re_split (dropWhile re_digit (dropWhile (\<lambda>c. \<not> re_digit c) s))"
  by (subst re_split.simps) (simp add: Let_def)

lemma split_shape_re_split: "split_shape (re_split s)"
proof (induction s rule: re_split.induct)
  case (1 s)
  let ?rest = "dropWhile (\<lambda>c. \<not> re_digit c) s"
  show ?case
  proof (cases "?rest = []")
    case True
    then show ?thesis
      by (simp add: re_split_plain takeWhile_not_digit del: dropWhile_eq_Nil_conv)
  next
    case False
    then obtain c cs where rc: "?rest = c # cs" by (cases ?rest) auto
    from False have "\<not> \<not> re_digit (hd ?rest)" by (rule hd_dropWhile)
    with rc have "re_digit c" by simp
    with rc have ne: "takeWhile re_digit ?rest \<noteq> []" by simp
    from False have "split_shape (re_split (dropWhile re_digit ?rest))"
      using "1.IH" by simp
    with False ne show ?thesis
      by (simp add: re_split_run takeWhile_not_digit takeWhile_digit del: dropWhile_eq_Nil_conv)
  qed
qed

lemma concat_re_split: "concat (re_split s) = s"
proof (induction s rule: re_split.induct)
  case (1 s)
  let ?rest = "dropWhile (\<lambda>c. \<not> re_digit c) s"
  show ?case
  proof (cases "?rest = []")
    case True
    have "takeWhile (\<lambda>c. \<not> re_digit c) s @ ?rest = s" by simp
    with True have "takeWhile (\<lambda>c. \<not> re_digit c) s = s" by simp
    with True show ?thesis
      by (simp add: re_split_plain del: dropWhile_eq_Nil_conv)
  next
    case False
    then have "concat (re_split (dropWhile re_digit ?rest)) = dropWhile re_digit ?rest"
      using "1.IH" by simp
    with False show ?thesis
      by (simp add: re_split_run del: dropWhile_eq_Nil_conv)
  qed
qed

lemma key_of_digits:
  assumes "d \<noteq> []" "list_all re_digit d"
  shows "key_of_text d = Inr (KInt (decimal d))"
proof -
  from assms have "isdigit d"
    by (auto simp: isdigit_def isdigit_char_def list_all_iff)
  with assms show ?thesis by (simp add: key_of_text_def py_int_def)
qed

lemma key_of_text_cases:
  assumes "list_all (\<lambda>c. \<not> re_digit c) t"
  shows "key_of_text t = (if isdigit t then Inl (ValueError t) else Inr (KStr (lower t)))"
proof (cases "isdigit t")
  case True
  then have "t \<noteq> []" by (simp add: isdigit_def)
  with assms have "\<not> list_all re_digit t" by (cases t) auto
  with True show ?thesis by (simp add: key_of_text_def py_int_def)
next
  case False
  then show ?thesis by (simp add: key_of_text_def)
qed

lemma comprehension_alternates:
  "split_shape ps \<Longrightarrow> comprehension key_of_text ps = Inr ks \<Longrightarrow> alternates True ks"
proof (induction ps arbitrary: ks rule: split_shape.induct)
  case 1
  then show ?case by simp
next
  case (2 t)
  then show ?case by (auto simp: key_of_text_cases split: if_splits)
next
  case (3 t d rest)
  then show ?case
    by (auto simp: key_of_text_cases key_of_digits split: if_splits sum.splits)
qed

lemma natural_sort_key_alternates: "natural_sort_key s = Inr ks \<Longrightarrow> alternates True ks"
  unfolding natural_sort_key_def by (rule comprehension_alternates [OF split_shape_re_split])

lemma key_lt_rank:
  "alternates b xs \<Longrightarrow> alternates b ys \<Longrightarrow> key_lt xs ys = Inr (map rank xs < map rank ys)"
proof (induction xs ys arbitrary: b rule: key_lt.induct)
  case (4 x xs y ys)
  then show ?case
    by (cases x; cases y) (auto simp: rank_def)
qed simp_all

lemma rank_inj: "alternates b xs \<Longrightarrow> alternates b ys \<Longrightarrow> map rank xs = map rank ys \<Longrightarrow> xs = ys"
proof (induction xs arbitrary: ys b)
  case Nil then show ?case by simp
next
  case (Cons x xs)
  then obtain y ys' where ys: "ys = y # ys'" by (cases ys) auto
  with Cons show ?case by (cases x; cases y) (auto simp: rank_def)
qed

lemma insort_lt_insort_key:
  assumes "alternates True (snd x)" "\<forall>y\<in>set ys. alternates True (snd y)"
  shows "insort_lt x ys = Inr (insort_key rank_of x ys)"
  using assms
proof (induction ys)
  case Nil
  then show ?case by simp
next
  case (Cons y ys)
  then have "key_lt (snd y) (snd x) = Inr (rank_of y < rank_of x)"
    by (intro key_lt_rank [of True]) simp_all
  moreover from Cons have "insort_lt x ys = Inr (insort_key rank_of x ys)" by simp
  ultimately show ?case
    by (cases "rank_of y < rank_of x") (simp_all add: not_less not_le [symmetric])
qed

lemma sort_lt_sort_key:
  assumes "\<forall>y\<in>set xs. alternates True (snd y)"
  shows "sort_lt xs = Inr (sort_key rank_of xs)"
  using assms
proof (induction xs)
  case Nil
  then show ?case by simp
next
  case (Cons x xs)
  then have "sort_lt xs = Inr (sort_key rank_of xs)" by simp
  moreover have "insort_lt x (sort_key rank_of xs) = Inr (insort_key rank_of x (sort_key rank_of xs))"
    using Cons.prems by (intro insort_lt_insort_key) simp_all
  ultimately show ?case by (simp add: sort_key_def)
qed

lemma decorate_all:
  "comprehension decorate fs = Inr ps \<Longrightarrow> map fst ps = fs \<and> keyed ps"
proof (induction fs arbitrary: ps)
  case Nil
  then show ?case by (simp add: keyed_def list_all_iff)
next
  case (Cons f fs)
  then show ?case
    by (auto simp: keyed_def list_all_iff decorate_def split: sum.splits)
qed

lemma decorate_total:
  "list_all has_key fs \<Longrightarrow> \<exists>ps. comprehension decorate fs = Inr ps"
  by (induction fs) (auto simp: has_key_def decorate_def split: sum.splits)

lemma keyed_alternates: "keyed ps \<Longrightarrow> p \<in> set ps \<Longrightarrow> alternates True (snd p)"
  by (auto simp: keyed_def list_all_iff intro: natural_sort_key_alternates)

lemma sorted_by_keys:
  assumes "comprehension decorate fs = Inr ps"
  shows "sorted_by natural_sort_key fs = Inr (map fst (sort_key rank_of ps))"
proof -
  from assms have "keyed ps" by (simp add: decorate_all)
  then have "sort_lt ps = Inr (sort_key rank_of ps)"
    by (intro sort_lt_sort_key) (auto dest: keyed_alternates)
  with assms show ?thesis
    by (simp add: sorted_by_def decorate_def [abs_def])
qed

lemma sorted_by_fails:
  assumes "comprehension decorate fs = Inl e"
  shows "sorted_by natural_sort_key fs = Inl e"
  using assms by (simp add: sorted_by_def decorate_def [abs_def])

lemma sorted_by_mset:
  assumes "sorted_by natural_sort_key fs = Inr out"
  shows "mset out = mset fs"
proof (cases "comprehension decorate fs")
  case (Inl e)
  with assms show ?thesis by (simp add: sorted_by_fails)
next
  case (Inr ps)
  then have "map fst ps = fs" by (simp add: decorate_all)
  moreover from Inr assms have "out = map fst (sort_key rank_of ps)"
    by (simp add: sorted_by_keys)
  ultimately show ?thesis
    by (metis mset_map mset_sort)
qed


lemma insort_lt_filter:
  "insort_lt x ys = Inr r \<Longrightarrow>
   filter (\<lambda>p. snd p = k) r = filter (\<lambda>p. snd p = k) (x # ys)"
proof (induction ys arbitrary: r)
  case Nil
  then show ?case by auto
next
  case (Cons y ys)
  have irrefl: "key_lt k k = Inr False" for k
    by (induction k) auto
  show ?case
  proof (cases "key_lt (snd y) (snd x)")
    case (Inl e)
    with Cons.prems show ?thesis by simp
  next
    case (Inr b)
    show ?thesis
    proof (cases b)
      case False
      with Inr Cons.prems show ?thesis by auto
    next
      case True
      with Inr Cons.prems obtain r' where r': "insort_lt x ys = Inr r'" "r = y # r'"
        by (auto split: sum.splits)
      from True Inr irrefl [of "snd x"] have "snd y \<noteq> snd x" by auto
      with Cons.IH [OF r'(1)] r'(2) show ?thesis by auto
    qed
  qed
qed

lemma sort_lt_filter:
  "sort_lt xs = Inr r \<Longrightarrow> filter (\<lambda>p. snd p = k) r = filter (\<lambda>p. snd p = k) xs"
proof (induction xs arbitrary: r)
  case Nil
  then show ?case by simp
next
  case (Cons x xs)
  then obtain r' where r': "sort_lt xs = Inr r'" "insort_lt x r' = Inr r"
    by (auto split: sum.splits)
  from insort_lt_filter [OF r'(2)] Cons.IH [OF r'(1)] show ?case by simp
qed

lemma sorted_by_stable:
  assumes "sorted_by natural_sort_key fs = Inr out"
  shows "filter (\<lambda>f. natural_sort_key f = Inr k) out = filter (\<lambda>f. natural_sort_key f = Inr k) fs"
proof (cases "comprehension decorate fs")
  case (Inl e)
  with assms show ?thesis by (simp add: sorted_by_fails)
next
  case (Inr ps)
  from Inr have fs: "map fst ps = fs" and k: "keyed ps" by (simp_all add: decorate_all)
  from Inr assms obtain r where r: "sort_lt ps = Inr r" "out = map fst r"
    by (auto simp: sorted_by_def decorate_def [abs_def] split: sum.splits)
  have "sort_lt ps = Inr (sort_key rank_of ps)"
    by (intro sort_lt_sort_key) (auto dest: keyed_alternates [OF k])
  with r(1) have "set r = set ps" by auto
  with k have kr: "keyed r" by (simp add: keyed_def list_all_iff)
  have conv: "filter (\<lambda>f. natural_sort_key f = Inr k) (map fst qs) = map fst (filter (\<lambda>p. snd p = k) qs)"
    if "keyed qs" for qs
    using that by (induction qs) (auto simp: keyed_def list_all_iff)
  show ?thesis
    unfolding r(2) conv [OF kr] sort_lt_filter [OF r(1)]
    using conv [OF k] fs by simp
qed

lemma sorted_by_total:
  "list_all has_key fs \<Longrightarrow> \<exists>out. sorted_by natural_sort_key fs = Inr out"
  using decorate_total [of fs] sorted_by_keys by blast



lemma comprehension_plain:
  "split_shape ps \<Longrightarrow> list_all plain ps \<Longrightarrow> \<exists>ks. comprehension key_of_text ps = Inr ks"
proof (induction ps rule: split_shape.induct)
  case 1
  then show ?case by simp
next
  case (2 t)
  then have "\<not> isdigit t"
    by (cases t) (auto simp: isdigit_def plain_def)
  with 2 show ?case by (simp add: key_of_text_cases)
next
  case (3 t d rest)
  then have "\<not> isdigit t"
    by (cases t) (auto simp: isdigit_def plain_def)
  with 3 show ?case by (auto simp: key_of_text_cases key_of_digits)
qed

lemma plain_concat: "plain (concat ps) \<Longrightarrow> list_all plain ps"
  by (induction ps) (auto simp: plain_def)

lemma plain_has_key: "plain f \<Longrightarrow> has_key f"
proof -
  assume "plain f"
  then have "list_all plain (re_split f)"
    by (intro plain_concat) (simp add: concat_re_split)
  with split_shape_re_split [of f] obtain ks where "comprehension key_of_text (re_split f) = Inr ks"
    using comprehension_plain by blast
  then show ?thesis by (simp add: has_key_def natural_sort_key_def)
qed

lemma keys_compare_equal:
  assumes "natural_sort_key f = Inr kf" "natural_sort_key g = Inr kg"
    and "key_lt kf kg = Inr False" "key_lt kg kf = Inr False"
  shows "kf = kg"
proof -
  from assms(1,2) have a: "alternates True kf" "alternates True kg"
    by (auto dest: natural_sort_key_alternates)
  then have "key_lt kf kg = Inr (map rank kf < map rank kg)"
    "key_lt kg kf = Inr (map rank kg < map rank kf)"
    by (auto intro: key_lt_rank)
  with assms(3,4) have "map rank kf = map rank kg" by auto
  with a show ?thesis by (rule rank_inj)
qed

lemma keys_total:
  assumes "natural_sort_key f = Inr kf" "natural_sort_key g = Inr kg"
  shows "\<exists>b. key_lt kf kg = Inr b"
  using assms key_lt_rank [of True kf kg] by (auto dest: natural_sort_key_alternates)

lemma list_images_total:
  "list_all has_key (retained entries) \<Longrightarrow> \<exists>out. list_images entries = Inr out"
  unfolding list_images_def by (rule sorted_by_total)

section \<open>Page-size policy\<close>



section \<open>Scaling and centring\<close>



section \<open>Natural order of the retained names\<close>



section \<open>Stability\<close>

text \<open>
  C8. When every retained name has a key, the Sequencer returns a list in which, for
  every key, the names with that key stand in the same relative order as in the
  directory enumeration. Two keys of names compare equal, neither being smaller than the
  other, only when they are the same key.
\<close>

theorem sort_is_stable:
  assumes "list_all has_key (retained entries)"
  shows "(\<exists>out. list_images entries = Inr out \<and>
           (\<forall>k. filter (\<lambda>f. natural_sort_key f = Inr k) out =
                filter (\<lambda>f. natural_sort_key f = Inr k) (retained entries)))
       \<and> (natural_sort_key f = Inr kf \<and> natural_sort_key g = Inr kg \<and>
            key_lt kf kg = Inr False \<and> key_lt kg kf = Inr False \<longrightarrow> kf = kg)"
proof -
  from assms obtain out where out: "list_images entries = Inr out"
    using list_images_total by blast
  then have "filter (\<lambda>f. natural_sort_key f = Inr k) out =
             filter (\<lambda>f. natural_sort_key f = Inr k) (retained entries)" for k
    unfolding list_images_def by (rule sorted_by_stable)
  with out show ?thesis using keys_compare_equal by blast
qed

theorem sort_is_stable_witness:
  "list_all has_key (retained tie_entries) \<and>
   retained tie_entries = [''b.png'', ''A1.png'', ''a01.png'', ''a1.PNG''] \<and>
   list_images tie_entries = Inr [''A1.png'', ''a01.png'', ''a1.PNG'', ''b.png''] \<and>
   filter (\<lambda>f. natural_sort_key f = Inr [KStr ''a'', KInt 1, KStr ''.png''])
     [''A1.png'', ''a01.png'', ''a1.PNG'', ''b.png''] = [''A1.png'', ''a01.png'', ''a1.PNG'']"
proof -
  have h: "list_all has_key (retained tie_entries)" by code_simp
  have r: "retained tie_entries = [''b.png'', ''A1.png'', ''a01.png'', ''a1.PNG'']" by code_simp
  have e: "list_images tie_entries = Inr [''A1.png'', ''a01.png'', ''a1.PNG'', ''b.png'']"
    by code_simp
  have f: "filter (\<lambda>f. natural_sort_key f = Inr [KStr ''a'', KInt 1, KStr ''.png''])
             (retained tie_entries) = [''A1.png'', ''a01.png'', ''a1.PNG'']"
    unfolding r by code_simp
  from sort_is_stable [OF h] e f
  have "filter (\<lambda>f. natural_sort_key f = Inr [KStr ''a'', KInt 1, KStr ''.png''])
     [''A1.png'', ''a01.png'', ''a1.PNG'', ''b.png''] = [''A1.png'', ''a01.png'', ''a1.PNG'']"
    by auto
  with h r e show ?thesis by simp
qed

section \<open>Names without a key\<close>

text \<open>
  C10. A name may have no key. In the name made of \<open>1\<close>, the superscript two (U+00B2),
  \<open>2\<close> and \<open>.png\<close>, the split is the empty text, \<open>1\<close>, the superscript two, \<open>2\<close>, \<open>.png\<close>;
  the superscript two satisfies \<open>isdigit\<close>, so \<open>int\<close> is applied to it and raises
  \<open>ValueError\<close>. The name passes the extension filter, and sorting a listing that
  contains it raises the same exception.
\<close>

theorem superscript_digit_has_no_key:
  "re_split superscript_name = ['''', ''1'', [CHR 0xB2], ''2'', ''.png''] \<and>
   isdigit [CHR 0xB2] \<and>
   natural_sort_key superscript_name = Inl (ValueError [CHR 0xB2]) \<and>
   is_image_name superscript_name \<and>
   list_images [\<lparr>entry_name = superscript_name, is_dir = False\<rparr>] = Inl (ValueError [CHR 0xB2])"
  by code_simp

section \<open>Extension filter\<close>

lemma endswith_iff: "endswith s suffix \<longleftrightarrow> (\<exists>stem. s = stem @ suffix)"
proof
  assume "endswith s suffix"
  then have "s = take (length s - length suffix) s @ suffix"
    by (metis append_take_drop_id endswith_def)
  then show "\<exists>stem. s = stem @ suffix" ..
next
  assume "\<exists>stem. s = stem @ suffix"
  then show "endswith s suffix" by (auto simp: endswith_def)
qed

lemma is_image_name_iff:
  "is_image_name f \<longleftrightarrow>
     (\<exists>stem. lower f = stem @ ''.png'' \<or> lower f = stem @ ''.jpg'' \<or> lower f = stem @ ''.jpeg'' \<or>
             lower f = stem @ ''.gif'' \<or> lower f = stem @ ''.bmp'' \<or> lower f = stem @ ''.tiff'')"
  unfolding is_image_name_def image_extensions_def by (simp add: endswith_iff) blast

text \<open>
  C6, as the code has it. When every retained name has a key, the Sequencer returns
  exactly the entry names, of files and subdirectories alike, whose lowercased form ends
  with one of \<open>.png\<close>, \<open>.jpg\<close>, \<open>.jpeg\<close>, \<open>.gif\<close>, \<open>.bmp\<close>, \<open>.tiff\<close>, each as often as it is
  listed; all other names are discarded. The listing \<open>a.png\<close>, \<open>b.txt\<close>, \<open>c.JPG\<close> yields
  \<open>a.png\<close>, \<open>c.JPG\<close>.
\<close>

theorem extension_filter:
  assumes "list_all has_key (retained entries)"
  shows "(\<exists>out. list_images entries = Inr out \<and>
               mset out = mset (filter is_image_name (map entry_name entries)))
       \<and> (is_image_name f \<longleftrightarrow>
            (\<exists>stem. lower f = stem @ ''.png'' \<or> lower f = stem @ ''.jpg'' \<or>
                    lower f = stem @ ''.jpeg'' \<or> lower f = stem @ ''.gif'' \<or>
                    lower f = stem @ ''.bmp'' \<or> lower f = stem @ ''.tiff''))"
proof -
  from assms obtain out where out: "list_images entries = Inr out"
    using list_images_total by blast
  then have "mset out = mset (retained entries)"
    unfolding list_images_def by (rule sorted_by_mset)
  with out show ?thesis
    by (simp add: retained_def is_image_name_iff)
qed

theorem extension_filter_witness:
  "list_all has_key (retained filter_entries) \<and>
   map entry_name filter_entries = [''a.png'', ''b.txt'', ''c.JPG''] \<and>
   list_images filter_entries = Inr [''a.png'', ''c.JPG''] \<and>
   is_image_name ''c.JPG'' \<and> \<not> is_image_name ''b.txt''"
proof -
  have h: "list_all has_key (retained filter_entries)" by code_simp
  have n: "map entry_name filter_entries = [''a.png'', ''b.txt'', ''c.JPG'']" by code_simp
  have e: "list_images filter_entries = Inr [''a.png'', ''c.JPG'']" by code_simp
  have i: "is_image_name ''c.JPG''" "\<not> is_image_name ''b.txt''" by code_simp+
  from extension_filter [OF h, of "''c.JPG''"] h n e i show ?thesis by simp
qed

text \<open>
  A subdirectory is not discarded when its name has an image extension: the listing whose
  only entry is the subdirectory \<open>scans.png\<close> yields \<open>scans.png\<close>.
\<close>

theorem subdirectory_retained:
  "list_all is_dir subdir_entries \<and> list_images subdir_entries = Inr [''scans.png'']"
  by code_simp

section \<open>The loop over the ordered files\<close>

lemma process_files_events:
  "progress_callback a \<Longrightarrow>
   events (process_files ev a pagesize n i fs st) = events st @ trace ev a pagesize n i fs"
  by (induction fs arbitrary: i st) (auto simp: emit_def Let_def split: sum.splits)

lemma process_files_silent:
  "\<not> progress_callback a \<Longrightarrow> events (process_files ev a pagesize n i fs st) = events st"
  by (induction fs arbitrary: i st) (auto simp: emit_def Let_def split: sum.splits)

lemma process_files_pages:
  "pages (process_files ev a pagesize n i fs st) = pages st @ drawn ev a pagesize fs"
  by (induction fs arbitrary: i st) (auto simp: emit_def Let_def split: sum.splits)

lemma process_files_saved:
  "saved (process_files ev a pagesize n i fs st) = saved st"
  by (induction fs arbitrary: i st) (auto simp: emit_def Let_def split: sum.splits)

lemma process_files_initial:
  assumes "progress_callback a"
  shows "process_files ev a pagesize n 0 fs initial =
           \<lparr>events = trace ev a pagesize n 0 fs, pages = drawn ev a pagesize fs, saved = False\<rparr>"
  using process_files_events [OF assms, of ev pagesize n 0 fs initial]
    process_files_pages [of ev a pagesize n 0 fs initial]
    process_files_saved [of ev a pagesize n 0 fs initial]
  by (cases "process_files ev a pagesize n 0 fs initial") (simp add: initial_def)

lemma process_image_source: "process_image ev folder pagesize f = Inr pg \<Longrightarrow> source pg = f"
  by (auto simp: process_image_def split: sum.splits option.splits)

lemma is_failure_of_simps:
  "is_failure_of f (FileFailed g e) = (g = f)"
  "is_failure_of f (Processing i n g) = False"
  "is_failure_of f NoImagesFound = False"
  "is_failure_of f (Saved p) = False"
  "is_failure_of f (ConvertFailed e) = False"
  by (simp_all add: is_failure_of_def)

lemma trace_reports:
  "f \<in> set fs \<Longrightarrow> process_image ev (image_folder a) pagesize f = Inl e \<Longrightarrow>
   FileFailed f e \<in> set (trace ev a pagesize n i fs)"
  by (induction fs arbitrary: i) (auto split: sum.splits)

lemma trace_no_failure:
  "f \<notin> set fs \<Longrightarrow> filter (is_failure_of f) (trace ev a pagesize n i fs) = []"
  by (induction fs arbitrary: i) (auto simp: is_failure_of_simps split: sum.splits)

lemma trace_one_failure:
  assumes "distinct fs" "k < length fs"
    and "process_image ev (image_folder a) pagesize (fs ! k) = Inl e"
  shows "filter (is_failure_of (fs ! k)) (trace ev a pagesize n i fs) = [FileFailed (fs ! k) e]"
  using assms
proof (induction fs arbitrary: i k)
  case Nil
  then show ?case by simp
next
  case (Cons f fs)
  show ?case
  proof (cases k)
    case 0
    with Cons.prems show ?thesis
      by (simp add: is_failure_of_simps trace_no_failure)
  next
    case (Suc j)
    with Cons.prems have "fs ! j \<noteq> f" by auto
    moreover from Suc Cons.prems
    have "filter (is_failure_of (fs ! j)) (trace ev a pagesize n (i + 1) fs) = [FileFailed (fs ! j) e]"
      by (intro Cons.IH) simp_all
    ultimately show ?thesis
      using Suc by (auto simp: is_failure_of_simps split: sum.splits)
  qed
qed

lemma drawn_sources: "map source (drawn ev a pagesize fs) = filter (drawable ev a pagesize) fs"
  by (induction fs) (auto simp: drawable_def process_image_source split: sum.splits)

lemma drawn_skips:
  assumes "process_image ev (image_folder a) pagesize f = Inl e"
  shows "list_all (\<lambda>pg. source pg \<noteq> f) (drawn ev a pagesize fs)"
proof -
  have "f \<notin> set (filter (drawable ev a pagesize) fs)"
    using assms by (simp add: drawable_def)
  then have "f \<notin> set (map source (drawn ev a pagesize fs))"
    by (simp add: drawn_sources)
  then show ?thesis by (auto simp: list_all_iff)
qed

lemma trace_processing:
  "filter is_processing (trace ev a pagesize n i fs) =
     map (\<lambda>(j, f). Processing (j + 1) n f) (List.enumerate i fs)"
  by (induction fs arbitrary: i) (auto simp: is_processing_def split: sum.splits)

lemma trace_not_saved: "filter is_saved (trace ev a pagesize n i fs) = []"
  by (induction fs arbitrary: i) (auto simp: is_saved_def split: sum.splits)

lemma list_images_distinct:
  assumes "list_images entries = Inr files" "distinct (map entry_name entries)"
  shows "distinct files"
proof -
  from assms(1) have "mset files = mset (retained entries)"
    unfolding list_images_def by (rule sorted_by_mset)
  moreover from assms(2) have "distinct (retained entries)"
    by (simp add: retained_def)
  ultimately show ?thesis by (metis mset_eq_imp_distinct_iff)
qed

lemma convert_body_completes:
  assumes cb: "progress_callback a"
    and dir: "ensure_output_dir ev a = None"
    and ps: "select_pagesize (page_size a) = Inr pagesize"
    and ls: "os_listdir ev (image_folder a) = Inr entries"
    and srt: "list_images entries = Inr files"
    and ne: "files \<noteq> []"
    and sv: "canvas_save ev (output_pdf a) = None"
  shows "convert_body ev a =
           (None, \<lparr>events = trace ev a pagesize (length files) 0 files @ [Saved (output_pdf a)],
                   pages = drawn ev a pagesize files, saved = True\<rparr>)"
  using ne by (simp add: convert_body_def dir ps ls srt sv process_files_initial [OF cb] emit_def cb)

lemma trace_not_convert_failed: "filter is_convert_failed (trace ev a pagesize n i fs) = []"
  by (induction fs arbitrary: i) (auto simp: is_convert_failed_def split: sum.splits)

lemma example_facts:
  "progress_callback example_args"
  "ensure_output_dir example_env example_args = None"
  "select_pagesize (page_size example_args) = Inr letter"
  "os_listdir example_env (image_folder example_args) = Inr example_entries"
  "canvas_save example_env (output_pdf example_args) = None"
  "image_folder example_args = ''in''"
  "output_pdf example_args = ''out/album.pdf''"
  by (simp_all add: example_args_def example_env_def ensure_output_dir_def lower_def)

lemma example_order:
  "list_images example_entries = Inr [''img1.png'', ''img2.png'', ''img10.png'']"
  by code_simp

lemma example_images:
  "process_image example_env ''in'' letter ''img1.png'' =
     Inr \<lparr>source = ''img1.png'',
          place = \<lparr>draw_x = 256, draw_y = 346, new_width = 100, new_height = 100\<rparr>\<rparr>"
  "process_image example_env ''in'' letter ''img2.png'' =
     Inl (LibraryError ''cannot identify image file'')"
  "process_image example_env ''in'' letter ''img10.png'' =
     Inr \<lparr>source = ''img10.png'',
          place = \<lparr>draw_x = 20, draw_y = 253, new_width = 572, new_height = 286\<rparr>\<rparr>"
  by (simp_all add: process_image_def example_env_def fit_def letter_def inch_def Let_def)

lemma empty_facts:
  "ensure_output_dir empty_env example_args = None"
  "os_listdir empty_env (image_folder example_args) = Inr [\<lparr>entry_name = ''notes.txt'', is_dir = False\<rparr>]"
  by (simp_all add: empty_env_def example_env_def example_args_def ensure_output_dir_def)

lemma empty_order: "list_images [\<lparr>entry_name = ''notes.txt'', is_dir = False\<rparr>] = Inr []"
  by code_simp

lemma empty_run:
  "convert_images_to_pdf empty_env example_args =
     (Returned_None, \<lparr>events = [NoImagesFound], pages = [], saved = False\<rparr>)"
  by (simp add: convert_images_to_pdf_def convert_body_def empty_facts example_facts(1,3)
      empty_order emit_def initial_def)

lemma example_run:
  "convert_images_to_pdf example_env example_args =
     (Returned_None,
      \<lparr>events = trace example_env example_args letter 3 0 [''img1.png'', ''img2.png'', ''img10.png''] @
                [Saved (output_pdf example_args)],
       pages = drawn example_env example_args letter [''img1.png'', ''img2.png'', ''img10.png''],
       saved = True\<rparr>)"
  using convert_body_completes [OF example_facts(1) example_facts(2) example_facts(3)
          example_facts(4) example_order _ example_facts(5)]
  by (simp add: convert_images_to_pdf_def)

lemma process_files_clean:
  "\<not> saved (process_files ev a pagesize n 0 fs initial)"
  "filter is_saved (events (process_files ev a pagesize n 0 fs initial)) = []"
  "filter is_convert_failed (events (process_files ev a pagesize n 0 fs initial)) = []"
proof -
  show "\<not> saved (process_files ev a pagesize n 0 fs initial)"
    by (simp add: process_files_saved initial_def)
  show "filter is_saved (events (process_files ev a pagesize n 0 fs initial)) = []"
    by (cases "progress_callback a")
      (simp_all add: process_files_events process_files_silent trace_not_saved initial_def)
  show "filter is_convert_failed (events (process_files ev a pagesize n 0 fs initial)) = []"
    by (cases "progress_callback a")
      (simp_all add: process_files_events process_files_silent trace_not_convert_failed initial_def)
qed

lemma convert_body_raises:
  assumes "convert_body ev a = (Some e, st)"
  shows "\<not> saved st \<and> filter is_saved (events st) = [] \<and> filter is_convert_failed (events st) = []"
proof -
  have init: "\<not> saved initial \<and> filter is_saved (events initial) = [] \<and>
              filter is_convert_failed (events initial) = []"
    by (simp add: initial_def)
  from assms have "st = initial \<or> (\<exists>pagesize n fs. st = process_files ev a pagesize n 0 fs initial)"
    by (auto simp: convert_body_def Let_def split: option.splits sum.splits if_splits)
  then show ?thesis
    using init process_files_clean by auto
qed

lemma listdir_failure:
  assumes "ensure_output_dir ev a = None" "select_pagesize (page_size a) = Inr pagesize"
    and "os_listdir ev (image_folder a) = Inl e"
  shows "convert_body ev a = (Some e, initial)"
  using assms by (simp add: convert_body_def)

lemma makedirs_failure:
  assumes "ensure_output_dir ev a = Some e"
  shows "convert_body ev a = (Some e, initial)"
  using assms by (simp add: convert_body_def)

lemma save_failure:
  assumes "ensure_output_dir ev a = None" "select_pagesize (page_size a) = Inr pagesize"
    and "os_listdir ev (image_folder a) = Inr entries" "list_images entries = Inr files"
    and "files \<noteq> []" "canvas_save ev (output_pdf a) = Some e"
  shows "convert_body ev a = (Some e, process_files ev a pagesize (length files) 0 files initial)"
  using assms by (simp add: convert_body_def)

lemma readonly_facts:
  "ensure_output_dir readonly_env example_args = None"
  "os_listdir readonly_env (image_folder example_args) = Inr example_entries"
  "canvas_save readonly_env (output_pdf example_args) = Some (LibraryError ''Permission denied'')"
  by (simp_all add: readonly_env_def example_env_def example_args_def ensure_output_dir_def)

lemma readonly_body:
  "convert_body readonly_env example_args =
     (Some (LibraryError ''Permission denied''),
      process_files readonly_env example_args letter 3 0 [''img1.png'', ''img2.png'', ''img10.png''] initial)"
  using save_failure [OF readonly_facts(1) example_facts(3) readonly_facts(2) example_order _ readonly_facts(3)]
  by (simp add: eval_nat_numeral del: process_files.simps)

lemma tuple_body:
  "convert_body example_env (example_args\<lparr>page_size := SizeTuple 612 792\<rparr>) = (Some AttributeError, initial)"
  by (simp add: convert_body_def ensure_output_dir_def example_env_def example_args_def)

lemma missing_body:
  "convert_body example_env missing_args = (Some (LibraryError ''No such file or directory''), initial)"
  by (simp add: convert_body_def ensure_output_dir_def example_env_def example_args_def
      missing_args_def lower_def)

section \<open>Per-file failures\<close>

text \<open>
  C3. Take a run with a progress callback in which nothing but files fails: the output
  directory is ensured, \<open>page_size\<close> is a string, the folder is listed (with distinct
  names) and ordered, and the document is saved. If the file at position \<open>k\<close> of the
  ordered list fails to decode or draw with exception \<open>e\<close>, then exactly one message
  reports a failure of that file, and it carries the file name and \<open>e\<close>; no page is drawn
  for that file; every file of the ordered list is announced, in order, and the pages are
  those of the files that do not fail, in order; the document is saved and the last
  message is the success message with the destination path. The call returns \<open>None\<close>.
\<close>

theorem partial_failure:
  assumes cb: "progress_callback a"
    and dir: "ensure_output_dir ev a = None"
    and ps: "select_pagesize (page_size a) = Inr pagesize"
    and ls: "os_listdir ev (image_folder a) = Inr entries"
    and dist: "distinct (map entry_name entries)"
    and srt: "list_images entries = Inr files"
    and sv: "canvas_save ev (output_pdf a) = None"
    and k: "k < length files"
    and fail: "process_image ev (image_folder a) pagesize (files ! k) = Inl e"
  shows "convert_images_to_pdf ev a =
           (Returned_None,
            \<lparr>events = trace ev a pagesize (length files) 0 files @ [Saved (output_pdf a)],
             pages = drawn ev a pagesize files, saved = True\<rparr>)
       \<and> filter (is_failure_of (files ! k)) (trace ev a pagesize (length files) 0 files) =
            [FileFailed (files ! k) e]
       \<and> list_all (\<lambda>pg. source pg \<noteq> files ! k) (drawn ev a pagesize files)
       \<and> map source (drawn ev a pagesize files) = filter (drawable ev a pagesize) files
       \<and> filter is_processing (trace ev a pagesize (length files) 0 files) =
            map (\<lambda>(j, f). Processing (j + 1) (length files) f) (List.enumerate 0 files)"
proof -
  from k have ne: "files \<noteq> []" by auto
  have "convert_images_to_pdf ev a =
           (Returned_None,
            \<lparr>events = trace ev a pagesize (length files) 0 files @ [Saved (output_pdf a)],
             pages = drawn ev a pagesize files, saved = True\<rparr>)"
    by (simp add: convert_images_to_pdf_def convert_body_completes [OF cb dir ps ls srt ne sv])
  moreover have "distinct files"
    using srt dist by (rule list_images_distinct)
  then have "filter (is_failure_of (files ! k)) (trace ev a pagesize (length files) 0 files) =
            [FileFailed (files ! k) e]"
    using k fail by (rule trace_one_failure)
  moreover have "list_all (\<lambda>pg. source pg \<noteq> files ! k) (drawn ev a pagesize files)"
    using fail by (rule drawn_skips)
  ultimately show ?thesis
    by (simp add: drawn_sources trace_processing)
qed

theorem partial_failure_witness:
  "list_images example_entries = Inr [''img1.png'', ''img2.png'', ''img10.png''] \<and>
   process_image example_env ''in'' letter ''img2.png'' =
     Inl (LibraryError ''cannot identify image file'') \<and>
   convert_images_to_pdf example_env example_args =
     (Returned_None,
      \<lparr>events =
         [Processing 1 3 ''img1.png'',
          Processing 2 3 ''img2.png'',
          FileFailed ''img2.png'' (LibraryError ''cannot identify image file''),
          Processing 3 3 ''img10.png'',
          Saved ''out/album.pdf''],
       pages =
         [\<lparr>source = ''img1.png'',
            place = \<lparr>draw_x = 256, draw_y = 346, new_width = 100, new_height = 100\<rparr>\<rparr>,
          \<lparr>source = ''img10.png'',
            place = \<lparr>draw_x = 20, draw_y = 253, new_width = 572, new_height = 286\<rparr>\<rparr>],
       saved = True\<rparr>)"
proof -
  have dist: "distinct (map entry_name example_entries)"
    by (simp add: example_entries_def)
  have k: "1 < length [''img1.png'', ''img2.png'', ''img10.png'']" by simp
  have fail: "process_image example_env (image_folder example_args) letter
                ([''img1.png'', ''img2.png'', ''img10.png''] ! 1) =
              Inl (LibraryError ''cannot identify image file'')"
    by (simp add: example_facts example_images)
  from partial_failure [OF example_facts(1) example_facts(2) example_facts(3) example_facts(4)
      dist example_order example_facts(5) k fail]
  show ?thesis
    by (simp add: example_order example_images example_facts)
qed

section \<open>Fatal errors\<close>

text \<open>
  C4, as the code has it. When an exception \<open>e\<close> leaves the body of the outer \<open>try\<close> (the
  output directory cannot be created, the folder cannot be listed, or the document cannot
  be saved, among others) and a progress callback is given, the run ends there: the
  document is not saved, no success message has been emitted, and the one and only
  conversion-failed message, carrying \<open>e\<close>, is appended as the last message. The call
  itself returns \<open>None\<close> and raises nothing.
\<close>

theorem fatal_error_reported:
  assumes cb: "progress_callback a"
    and fatal: "convert_body ev a = (Some e, st)"
  shows "convert_images_to_pdf ev a = (Returned_None, st\<lparr>events := events st @ [ConvertFailed e]\<rparr>)
       \<and> \<not> saved st
       \<and> filter is_saved (events st) = []
       \<and> filter is_convert_failed (events st) = []"
  using convert_body_raises [OF fatal]
  by (simp add: convert_images_to_pdf_def fatal emit_def cb)

theorem fatal_error_reported_witness:
  "os_listdir example_env (image_folder missing_args) = Inl (LibraryError ''No such file or directory'') \<and>
   convert_body example_env missing_args = (Some (LibraryError ''No such file or directory''), initial) \<and>
   convert_images_to_pdf example_env missing_args =
     (Returned_None,
      \<lparr>events = [ConvertFailed (LibraryError ''No such file or directory'')],
       pages = [], saved = False\<rparr>)"
proof -
  have cb: "progress_callback missing_args"
    by (simp add: missing_args_def example_args_def)
  have ls: "os_listdir example_env (image_folder missing_args) =
              Inl (LibraryError ''No such file or directory'')"
    by (simp add: missing_args_def example_args_def example_env_def)
  have "ensure_output_dir example_env missing_args = None"
    "select_pagesize (page_size missing_args) = Inr letter"
    by (simp_all add: missing_args_def example_args_def example_env_def ensure_output_dir_def lower_def)
  then have fatal: "convert_body example_env missing_args =
                      (Some (LibraryError ''No such file or directory''), initial)"
    using ls by (rule listdir_failure)
  from fatal_error_reported [OF cb fatal] ls fatal show ?thesis
    by (simp add: initial_def)
qed

text \<open>
  The failure is not visible in what the call returns: with a missing folder the call
  returns \<open>None\<close>, as it does for the run that saves its document.
\<close>

theorem fatal_error_not_in_return_value:
  "os_listdir example_env (image_folder missing_args) = Inl (LibraryError ''No such file or directory'') \<and>
   fst (convert_images_to_pdf example_env missing_args) = Returned_None \<and>
   fst (convert_images_to_pdf example_env example_args) = Returned_None \<and>
   saved (snd (convert_images_to_pdf example_env example_args))"
proof -
  have "convert_images_to_pdf example_env missing_args =
     (Returned_None,
      \<lparr>events = [ConvertFailed (LibraryError ''No such file or directory'')],
       pages = [], saved = False\<rparr>)"
    by (simp add: convert_images_to_pdf_def convert_body_def missing_args_def example_args_def
        example_env_def ensure_output_dir_def lower_def emit_def initial_def)
  moreover have "os_listdir example_env (image_folder missing_args) =
      Inl (LibraryError ''No such file or directory'')"
    by (simp add: missing_args_def example_args_def example_env_def)
  moreover have "fst (convert_images_to_pdf example_env example_args) = Returned_None"
    "saved (snd (convert_images_to_pdf example_env example_args))"
    by (simp_all add: convert_images_to_pdf_def
        convert_body_completes [OF example_facts(1) example_facts(2) example_facts(3)
          example_facts(4) example_order _ example_facts(5)])
  ultimately show ?thesis by simp
qed

section \<open>No images\<close>

text \<open>
  C5, as the code has it. In a run with a progress callback in which the output directory
  is ensured, \<open>page_size\<close> is a string, the folder is listed and the ordered list of
  image names is empty, exactly one message is emitted, the one saying that no images
  were found; no page is drawn and the document is not saved; the call returns \<open>None\<close>.
\<close>

theorem empty_input:
  assumes cb: "progress_callback a"
    and dir: "ensure_output_dir ev a = None"
    and ps: "select_pagesize (page_size a) = Inr pagesize"
    and ls: "os_listdir ev (image_folder a) = Inr entries"
    and srt: "list_images entries = Inr []"
  shows "convert_images_to_pdf ev a =
           (Returned_None, \<lparr>events = [NoImagesFound], pages = [], saved = False\<rparr>)"
  by (simp add: convert_images_to_pdf_def convert_body_def dir ps ls srt emit_def cb initial_def)

theorem empty_input_witness:
  "list_images [\<lparr>entry_name = ''notes.txt'', is_dir = False\<rparr>] = Inr [] \<and>
   convert_images_to_pdf empty_env example_args =
     (Returned_None, \<lparr>events = [NoImagesFound], pages = [], saved = False\<rparr>)"
  using empty_input [OF example_facts(1) empty_facts(1) example_facts(3) empty_facts(2) empty_order]
    empty_order
  by simp

text \<open>
  The empty run is not distinguished by what the call returns: it returns \<open>None\<close>, as
  does the run that saves its document.
\<close>

theorem empty_returns_like_success:
  "fst (convert_images_to_pdf empty_env example_args) = Returned_None \<and>
   pages (snd (convert_images_to_pdf empty_env example_args)) = [] \<and>
   fst (convert_images_to_pdf example_env example_args) = Returned_None \<and>
   saved (snd (convert_images_to_pdf example_env example_args))"
  by (simp add: empty_run example_run)

section \<open>The call never raises\<close>

text \<open>
  C9. For every environment and all arguments, the call returns \<open>None\<close> and raises
  nothing; the state it leaves is that of the body, with the conversion-failed message
  passed to the callback when an exception left the body. A file that fails inside the
  loop is reported to the callback by its own message. A missing folder, a document that
  cannot be saved and a \<open>page_size\<close> that is not a string all end this way.
\<close>

theorem never_raises:
  "fst (convert_images_to_pdf ev a) = Returned_None
   \<and> snd (convert_images_to_pdf ev a) =
       (case convert_body ev a of
          (None, st) \<Rightarrow> st
        | (Some e, st) \<Rightarrow> emit a (ConvertFailed e) st)
   \<and> (progress_callback a \<and> f \<in> set fs \<and>
        process_image ev (image_folder a) pagesize f = Inl e' \<longrightarrow>
        FileFailed f e' \<in> set (events (process_files ev a pagesize n i fs st')))"
proof -
  have "fst (convert_images_to_pdf ev a) = Returned_None"
    by (simp add: convert_images_to_pdf_def split: prod.splits option.splits)
  moreover have "snd (convert_images_to_pdf ev a) =
       (case convert_body ev a of
          (None, st) \<Rightarrow> st
        | (Some e, st) \<Rightarrow> emit a (ConvertFailed e) st)"
    by (simp add: convert_images_to_pdf_def split: prod.splits option.splits)
  moreover have "FileFailed f e' \<in> set (events (process_files ev a pagesize n i fs st'))"
    if "progress_callback a" "f \<in> set fs" "process_image ev (image_folder a) pagesize f = Inl e'"
    using that by (simp add: process_files_events trace_reports)
  ultimately show ?thesis by blast
qed

theorem never_raises_witness:
  "convert_images_to_pdf example_env missing_args =
     (Returned_None,
      emit missing_args (ConvertFailed (LibraryError ''No such file or directory'')) initial) \<and>
   convert_images_to_pdf readonly_env example_args =
     (Returned_None,
      emit example_args (ConvertFailed (LibraryError ''Permission denied''))
        (process_files readonly_env example_args letter 3 0
           [''img1.png'', ''img2.png'', ''img10.png''] initial)) \<and>
   convert_images_to_pdf example_env (example_args\<lparr>page_size := SizeTuple 612 792\<rparr>) =
     (Returned_None,
      emit (example_args\<lparr>page_size := SizeTuple 612 792\<rparr>) (ConvertFailed AttributeError) initial) \<and>
   FileFailed ''img2.png'' (LibraryError ''cannot identify image file'') \<in>
     set (events (process_files example_env example_args letter 3 0
           [''img1.png'', ''img2.png'', ''img10.png''] initial))"
proof -
  have "convert_images_to_pdf example_env missing_args =
     (Returned_None,
      emit missing_args (ConvertFailed (LibraryError ''No such file or directory'')) initial)"
    using never_raises [of example_env missing_args]
    by (simp add: prod_eq_iff missing_body del: process_files.simps)
  moreover have "convert_images_to_pdf readonly_env example_args =
     (Returned_None,
      emit example_args (ConvertFailed (LibraryError ''Permission denied''))
        (process_files readonly_env example_args letter 3 0
           [''img1.png'', ''img2.png'', ''img10.png''] initial))"
    using never_raises [of readonly_env example_args]
    by (simp add: prod_eq_iff readonly_body del: process_files.simps)
  moreover have "convert_images_to_pdf example_env (example_args\<lparr>page_size := SizeTuple 612 792\<rparr>) =
     (Returned_None,
      emit (example_args\<lparr>page_size := SizeTuple 612 792\<rparr>) (ConvertFailed AttributeError) initial)"
    using never_raises [of example_env "example_args\<lparr>page_size := SizeTuple 612 792\<rparr>"]
    by (simp add: prod_eq_iff tuple_body del: process_files.simps)
  moreover have "FileFailed ''img2.png'' (LibraryError ''cannot identify image file'') \<in>
     set (events (process_files example_env example_args letter 3 0
           [''img1.png'', ''img2.png'', ''img10.png''] initial))"
    using never_raises [of example_env example_args "''img2.png''"
        "[''img1.png'', ''img2.png'', ''img10.png'']" letter
        "LibraryError ''cannot identify image file''" 3 0 initial]
    by (simp add: example_facts example_images del: process_files.simps)
  ultimately show ?thesis by (simp only: simp_thms)
qed

end
